theory Spec2Isabelle
  imports Main
begin

section \<open>JavaScript values\<close>

text \<open>
  The request body, the rows handed back by the persistence store and the JSON payloads
  sent to the caller are JavaScript values. Numbers are modelled by integers (the code
  only tests them for truthiness and copies them), objects by association lists from
  property names to values, in insertion order.
\<close>

datatype jsval =
    JUndefined
  | JNull
  | JBool bool
  | JNum int
  | JStr string
  | JArr "jsval list"
  | JObj "(string \<times> jsval) list"

type_synonym jsobj = "(string \<times> jsval) list"

text \<open>Errors: a \<open>TypeError\<close> thrown by the language, or a rejected store promise.\<close>

datatype error = TypeError | StoreRejected

text \<open>What a middleware or handler does with the response: it answers with a status
  code and a JSON payload, or it calls \<open>next()\<close>.\<close>

datatype outcome = Respond nat jsval | Next

text \<open>The part of Express' \<open>req\<close> that the code reads: \<open>req.params\<close>, \<open>req.body\<close> as the
  JSON body parser leaves it, and \<open>req.profile\<close> as the authentication middleware sets it.\<close>

record req =
  params :: jsobj
  body :: jsobj
  profile :: jsobj

text \<open>\<open>!v\<close> is true exactly for \<open>undefined\<close>, \<open>null\<close>, \<open>false\<close>, \<open>0\<close> and the empty string.\<close>

fun truthy :: "jsval \<Rightarrow> bool" where
  "truthy JUndefined = False"
| "truthy JNull = False"
| "truthy (JBool b) = b"
| "truthy (JNum n) = (n \<noteq> 0)"
| "truthy (JStr s) = (s \<noteq> [])"
| "truthy (JArr xs) = True"
| "truthy (JObj fs) = True"

text \<open>Reading a property of an object: \<open>undefined\<close> when the object has no such property.\<close>

definition lookup :: "jsobj \<Rightarrow> string \<Rightarrow> jsval" where
  "lookup fs k = (case map_of fs k of None \<Rightarrow> JUndefined | Some v \<Rightarrow> v)"

text \<open>
  Reading a property of an arbitrary value (\<open>v.k\<close>, or \<open>const {k} = v\<close>): \<open>undefined\<close> and
  \<open>null\<close> throw, an object is looked up, and every other value has no property of the
  names the code reads (\<open>id\<close>, \<open>question_id\<close>, \<open>content\<close>).
\<close>

fun field :: "jsval \<Rightarrow> string \<Rightarrow> error + jsval" where
  "field JUndefined k = Inl TypeError"
| "field JNull k = Inl TypeError"
| "field (JObj fs) k = Inr (lookup fs k)"
| "field v k = Inr JUndefined"

text \<open>The values a \<open>for ... of\<close> loop runs over: the elements of an array, the
  characters of a string; any other (truthy) value is not iterable.\<close>

fun elements :: "jsval \<Rightarrow> error + jsval list" where
  "elements (JArr xs) = Inr xs"
| "elements (JStr s) = Inr (map (\<lambda>c. JStr [c]) s)"
| "elements v = Inl TypeError"

section \<open>The reply validator (api/middleware/requests/index.js)\<close>

definition not_found :: outcome where
  "not_found = Respond 404 (JObj [(''error'', JStr ''Could not find a request with that id'')])"

definition must_include_replies :: outcome where
  "must_include_replies = Respond 400 (JObj [(''error'', JStr ''Must include replies'')])"

definition must_include_question_id :: outcome where
  "must_include_question_id =
     Respond 400 (JObj [(''error'', JStr ''Every reply must include a question id'')])"

definition must_include_content :: outcome where
  "must_include_content =
     Respond 400 (JObj [(''error'', JStr ''Every reply must include a content value'')])"

text \<open>The loop \<open>for (const { question_id, content } of replies)\<close>, over the entries still
  to be visited.\<close>

fun check_replies :: "jsval list \<Rightarrow> error + outcome" where
  "check_replies [] = Inr Next"
| "check_replies (e # es) =
     (case field e ''question_id'' of
        Inl err \<Rightarrow> Inl err
      | Inr question_id \<Rightarrow>
          (case field e ''content'' of
             Inl err \<Rightarrow> Inl err
           | Inr content \<Rightarrow>
               if \<not> truthy question_id then Inr must_include_question_id
               else if \<not> truthy content then Inr must_include_content
               else check_replies es))"

text \<open>\<open>validateRequestReplies\<close>; the store's \<open>getRequestDetailed\<close> is a parameter.\<close>

definition validateRequestReplies ::
  "(jsval \<Rightarrow> error + jsval) \<Rightarrow> req \<Rightarrow> error + outcome" where
  "validateRequestReplies getRequestDetailed rq =
     (let id' = lookup (params rq) ''id'';
          replies = lookup (body rq) ''replies''
      in case getRequestDetailed id' of
           Inl err \<Rightarrow> Inl err
         | Inr request \<Rightarrow>
             (case field request ''id'' of
                Inl err \<Rightarrow> Inl err
              | Inr request_id \<Rightarrow>
                  if \<not> truthy request_id then Inr not_found
                  else if \<not> truthy replies then Inr must_include_replies
                  else (case elements replies of
                          Inl err \<Rightarrow> Inl err
                        | Inr es \<Rightarrow> check_replies es)))"

section \<open>The write route (api/requests/requestRouter.js, \<open>router.post('/:id')\<close>)\<close>

text \<open>The payload of every 500 answer; the two literals joined are the source's message.\<close>

definition internal_server_error :: outcome where
  "internal_server_error =
     Respond 500 (JObj [(''message'', JStr (''We are so'' @ ''rry, Internal server error.''))])"

text \<open>The handler behind the validator; the store's \<open>addRequestReplies\<close> is a parameter.
  Its promise has no \<open>catch\<close>: a rejection is not answered.\<close>

definition post_replies ::
  "(jsval \<Rightarrow> jsval \<Rightarrow> jsval \<Rightarrow> error + jsval) \<Rightarrow> req \<Rightarrow> error + outcome" where
  "post_replies addRequestReplies rq =
     (let id' = lookup (params rq) ''id'';
          replies = lookup (body rq) ''replies'';
          profile_id = lookup (profile rq) ''id''
      in case addRequestReplies id' profile_id replies of
           Inl err \<Rightarrow> Inl err
         | Inr requestInfo \<Rightarrow>
             if truthy requestInfo then Inr (Respond 200 requestInfo)
             else Inr internal_server_error)"

text \<open>\<open>router.post('/:id', validateRequestReplies, handler)\<close>: the handler runs when the
  validator calls \<open>next()\<close>.\<close>

definition post_route ::
  "(jsval \<Rightarrow> error + jsval) \<Rightarrow> (jsval \<Rightarrow> jsval \<Rightarrow> jsval \<Rightarrow> error + jsval) \<Rightarrow> req
     \<Rightarrow> error + outcome" where
  "post_route getRequestDetailed addRequestReplies rq =
     (case validateRequestReplies getRequestDetailed rq of
        Inr Next \<Rightarrow> post_replies addRequestReplies rq
      | other \<Rightarrow> other)"

section \<open>The reply aggregator (\<open>router.get('/:id/replies')\<close>)\<close>

text \<open>The object literal returned by the \<open>map\<close> callback.\<close>

definition reply_view :: "jsobj \<Rightarrow> jsval" where
  "reply_view reply =
     JObj [(''id'', lookup reply ''id''),
           (''posted_at'', lookup reply ''posted_at''),
           (''iteration_id'', lookup reply ''iteration_id''),
           (''question_id'', lookup reply ''question_id''),
           (''question'', lookup reply ''question''),
           (''content'', lookup reply ''content'')]"

text \<open>The \<open>map\<close> callback: it updates the closure variables \<open>username\<close> and
  \<open>userAvatarUrl\<close> (the state) and returns the stripped reply.\<close>

definition reply_cb :: "jsval \<times> jsval \<Rightarrow> jsobj \<Rightarrow> (jsval \<times> jsval) \<times> jsval" where
  "reply_cb st reply =
     (let username = fst st;
          userAvatarUrl = snd st;
          name = lookup reply ''name'';
          avatarUrl = lookup reply ''avatarUrl'';
          username = (if \<not> truthy username then name else username);
          userAvatarUrl = (if \<not> truthy userAvatarUrl then avatarUrl else userAvatarUrl)
      in ((username, userAvatarUrl), reply_view reply))"

text \<open>\<open>Array.prototype.map\<close> with a callback that has a state: left to right.\<close>

fun map_st :: "('s \<Rightarrow> 'a \<Rightarrow> 's \<times> 'b) \<Rightarrow> 's \<Rightarrow> 'a list \<Rightarrow> 's \<times> 'b list" where
  "map_st f s [] = (s, [])"
| "map_st f s (x # xs) =
     (case f s x of (s', y) \<Rightarrow> (case map_st f s' xs of (s'', ys) \<Rightarrow> (s'', y # ys)))"

text \<open>\<open>replies.filter((reply) => reply.profile_id === curr)\<close>: the member ids are
  strings, and \<open>===\<close> holds for a string and a value exactly when the value is that string.\<close>

definition matching :: "jsobj list \<Rightarrow> string \<Rightarrow> jsobj list" where
  "matching replies curr' = filter (\<lambda>reply. lookup reply ''profile_id'' = JStr curr') replies"

text \<open>The body of the reducer up to the object it builds for the member \<open>curr\<close>:
  \<open>username\<close> and \<open>userAvatarUrl\<close> start out \<open>undefined\<close>.\<close>

definition member_group :: "jsobj list \<Rightarrow> string \<Rightarrow> jsval" where
  "member_group replies curr' =
     (case map_st reply_cb (JUndefined, JUndefined) (matching replies curr') of
        ((username, userAvatarUrl), foundReplies) \<Rightarrow>
          JObj [(''profile_id'', JStr curr'),
                (''name'', username),
                (''avatarUrl'', userAvatarUrl),
                (''replies'', JArr foundReplies)])"

text \<open>The reducer: \<open>acc.push(...)\<close>, then \<open>return acc\<close>.\<close>

definition reducer :: "jsobj list \<Rightarrow> jsval list \<Rightarrow> string \<Rightarrow> jsval list" where
  "reducer replies acc curr' = acc @ [member_group replies curr']"

text \<open>\<open>whoHasReplied.reduce(..., [])\<close>.\<close>

definition filteredReplies :: "jsobj list \<Rightarrow> string list \<Rightarrow> jsval list" where
  "filteredReplies replies whoHasReplied = foldl (reducer replies) [] whoHasReplied"

text \<open>The route: both store calls are parameters; any rejection ends in the \<open>catch\<close>.\<close>

definition get_replies_route ::
  "(jsval \<Rightarrow> error + jsobj list) \<Rightarrow> (jsval \<Rightarrow> error + string list) \<Rightarrow> req \<Rightarrow> outcome" where
  "get_replies_route getRequestReplies getWhoHasReplied rq =
     (let id' = lookup (params rq) ''id''
      in case getRequestReplies id' of
           Inl err \<Rightarrow> internal_server_error
         | Inr replies \<Rightarrow>
             (case getWhoHasReplied id' of
                Inl err \<Rightarrow> internal_server_error
              | Inr whoHasReplied \<Rightarrow>
                  Respond 200
                    (JObj [(''request_replies'', JArr (filteredReplies replies whoHasReplied))])))"

section \<open>Reading payloads\<close>

text \<open>The property names of a value, in order (\<open>Object.keys\<close>); none for a value that is
  not an object.\<close>

fun fields_of :: "jsval \<Rightarrow> string list" where
  "fields_of (JObj fs) = map fst fs"
| "fields_of v = []"

section \<open>Properties of the validator\<close>

lemma check_replies_append_ok:
  assumes "\<forall>p\<in>set pre. \<exists>q c. field p ''question_id'' = Inr q \<and> truthy q
              \<and> field p ''content'' = Inr c \<and> truthy c"
  shows "check_replies (pre @ es) = check_replies es"
  using assms by (induction pre) auto

lemma check_replies_offender:
  assumes "field e ''question_id'' = Inr q" and "field e ''content'' = Inr c"
    and "\<not> truthy q \<or> \<not> truthy c"
  shows "check_replies (e # post) =
           Inr (if \<not> truthy q then must_include_question_id else must_include_content)"
  using assms by auto

lemma validate_existing:
  assumes "getRequestDetailed (lookup (params rq) ''id'') = Inr request"
    and "field request ''id'' = Inr rid" and "truthy rid"
  shows "validateRequestReplies getRequestDetailed rq =
           (if \<not> truthy (lookup (body rq) ''replies'') then Inr must_include_replies
            else case elements (lookup (body rq) ''replies'') of
                   Inl err \<Rightarrow> Inl err | Inr es \<Rightarrow> check_replies es)"
  using assms by (simp add: validateRequestReplies_def)

text \<open>A batch of objects with some incomplete entry splits at its first incomplete
  entry, and the loop rejects it.\<close>

lemma first_incomplete_entry_split:
  assumes "\<exists>x\<in>set os. \<not> truthy (lookup x ''question_id'') \<or> \<not> truthy (lookup x ''content'')"
  shows "\<exists>pre x post. os = pre @ x # post
           \<and> (\<forall>p\<in>set pre. truthy (lookup p ''question_id'') \<and> truthy (lookup p ''content''))
           \<and> (\<not> truthy (lookup x ''question_id'') \<or> \<not> truthy (lookup x ''content''))"
proof -
  from split_list_first_prop [OF assms]
  obtain pre x post where "os = pre @ x # post"
    and "\<not> truthy (lookup x ''question_id'') \<or> \<not> truthy (lookup x ''content'')"
    and "\<forall>p\<in>set pre. \<not> (\<not> truthy (lookup p ''question_id'') \<or> \<not> truthy (lookup p ''content''))"
    by blast
  then show ?thesis by blast
qed

lemma incomplete_object_batch_rejected:
  assumes "\<exists>x\<in>set os. \<not> truthy (lookup x ''question_id'') \<or> \<not> truthy (lookup x ''content'')"
  shows "check_replies (map JObj os) = Inr must_include_question_id
       \<or> check_replies (map JObj os) = Inr must_include_content"
proof -
  from first_incomplete_entry_split [OF assms]
  obtain pre x post where os: "os = pre @ x # post"
    and pre: "\<forall>p\<in>set pre. truthy (lookup p ''question_id'') \<and> truthy (lookup p ''content'')"
    and x: "\<not> truthy (lookup x ''question_id'') \<or> \<not> truthy (lookup x ''content'')"
    by blast
  from pre have "\<forall>p\<in>set (map JObj pre). \<exists>q c. field p ''question_id'' = Inr q \<and> truthy q
              \<and> field p ''content'' = Inr c \<and> truthy c"
    by simp
  then have "check_replies (map JObj pre @ JObj x # map JObj post)
      = check_replies (JObj x # map JObj post)"
    by (rule check_replies_append_ok)
  moreover have "check_replies (JObj x # map JObj post) =
      Inr (if \<not> truthy (lookup x ''question_id'') then must_include_question_id
           else must_include_content)"
    using x by (intro check_replies_offender) simp_all
  ultimately show ?thesis by (simp add: os)
qed

text \<open>
  Claim C4. When the store's \<open>getRequestDetailed\<close> hands back a record whose \<open>id\<close> is
  falsy (no such Request), the validator answers with status 404 and the payload
  \<open>{error: 'Could not find a request with that id'}\<close>, whatever the request body holds: the check on the Request comes before every check
  on the batch.
\<close>

theorem validate_unknown_request_not_found:
  assumes "getRequestDetailed (lookup (params rq) ''id'') = Inr request"
    and "field request ''id'' = Inr rid" and "\<not> truthy rid"
  shows "validateRequestReplies getRequestDetailed rq =
           Inr (Respond 404 (JObj [(''error'', JStr ''Could not find a request with that id'')]))"
  using assms by (simp add: validateRequestReplies_def not_found_def)

text \<open>
  Claim C4 at a store that knows no Request, with a well-formed batch in the body.
\<close>

theorem validate_unknown_request_not_found_witness:
  "validateRequestReplies (\<lambda>i. Inr (JObj []))
     \<lparr>params = [(''id'', JStr ''99'')],
      body = [(''replies'', JArr [JObj [(''question_id'', JNum 1), (''content'', JStr ''a'')]])],
      profile = [(''id'', JStr ''A'')]\<rparr>
   = Inr (Respond 404 (JObj [(''error'', JStr ''Could not find a request with that id'')]))"
  using validate_unknown_request_not_found [of "\<lambda>i. Inr (JObj [])"
     "\<lparr>params = [(''id'', JStr ''99'')],
      body = [(''replies'', JArr [JObj [(''question_id'', JNum 1), (''content'', JStr ''a'')]])],
      profile = [(''id'', JStr ''A'')]\<rparr>" "JObj []" JUndefined]
  by (simp add: lookup_def)

text \<open>
  Claim C5. When the Request exists and the body has no \<open>replies\<close> field (or an
  \<open>undefined\<close> one), the validator answers with status 400 and the payload
  \<open>{error: 'Must include replies'}\<close>; no entry is looked at.
\<close>

theorem validate_missing_replies:
  assumes "getRequestDetailed (lookup (params rq) ''id'') = Inr request"
    and "field request ''id'' = Inr rid" and "truthy rid"
    and "lookup (body rq) ''replies'' = JUndefined"
  shows "validateRequestReplies getRequestDetailed rq =
           Inr (Respond 400 (JObj [(''error'', JStr ''Must include replies'')]))"
  using validate_existing[of getRequestDetailed rq request rid] assms
  by (simp add: must_include_replies_def)

text \<open>
  Claim C5 at a body without a \<open>replies\<close> field.
\<close>

theorem validate_missing_replies_witness:
  "validateRequestReplies (\<lambda>i. Inr (JObj [(''id'', JNum 1)]))
     \<lparr>params = [(''id'', JStr ''1'')], body = [], profile = [(''id'', JStr ''A'')]\<rparr>
   = Inr (Respond 400 (JObj [(''error'', JStr ''Must include replies'')]))"
  using validate_missing_replies [of "\<lambda>i. Inr (JObj [(''id'', JNum 1)])"
     "\<lparr>params = [(''id'', JStr ''1'')], body = [], profile = [(''id'', JStr ''A'')]\<rparr>"
     "JObj [(''id'', JNum 1)]" "JNum 1"]
  by (simp add: lookup_def)




text \<open>
  Claim C7. When the Request exists and every entry of the batch carries a truthy
  \<open>question_id\<close> and a truthy \<open>content\<close>, the validator calls \<open>next()\<close>. Nothing is
  asked about the entries together (the same question id may occur twice), and the
  question ids are not compared with the Request's questions: the validator reads the
  store through \<open>getRequestDetailed\<close> only.
\<close>

theorem validate_accepts_complete_batch:
  assumes "getRequestDetailed (lookup (params rq) ''id'') = Inr request"
    and "field request ''id'' = Inr rid" and "truthy rid"
    and "lookup (body rq) ''replies'' = JArr es"
    and "\<forall>p\<in>set es. \<exists>q c. field p ''question_id'' = Inr q \<and> truthy q
              \<and> field p ''content'' = Inr c \<and> truthy c"
  shows "validateRequestReplies getRequestDetailed rq = Inr Next"
  using validate_existing[of getRequestDetailed rq request rid] assms(1-3) assms(4) check_replies_append_ok[OF assms(5), of "[]"]
  by simp

text \<open>
  Claim C7 at a batch that answers question 5 twice.
\<close>

theorem validate_accepts_complete_batch_witness:
  "validateRequestReplies (\<lambda>i. Inr (JObj [(''id'', JNum 1)]))
     \<lparr>params = [(''id'', JStr ''1'')],
      body = [(''replies'',
               JArr [JObj [(''question_id'', JNum 5), (''content'', JStr ''a'')],
                     JObj [(''question_id'', JNum 5), (''content'', JStr ''b'')]])],
      profile = [(''id'', JStr ''A'')]\<rparr>
   = Inr Next"
  using validate_accepts_complete_batch [of "\<lambda>i. Inr (JObj [(''id'', JNum 1)])"
     "\<lparr>params = [(''id'', JStr ''1'')],
      body = [(''replies'',
               JArr [JObj [(''question_id'', JNum 5), (''content'', JStr ''a'')],
                     JObj [(''question_id'', JNum 5), (''content'', JStr ''b'')]])],
      profile = [(''id'', JStr ''A'')]\<rparr>"
     "JObj [(''id'', JNum 1)]" "JNum 1"
     "[JObj [(''question_id'', JNum 5), (''content'', JStr ''a'')],
       JObj [(''question_id'', JNum 5), (''content'', JStr ''b'')]]"]
  by (simp add: lookup_def)

text \<open>
  Claim C10. When the Request exists and the batch is the empty array, the validator
  calls \<open>next()\<close> (an empty array is truthy and the loop has nothing to reject), and the
  route goes on to the write handler.
\<close>

theorem validate_accepts_empty_batch:
  assumes "getRequestDetailed (lookup (params rq) ''id'') = Inr request"
    and "field request ''id'' = Inr rid" and "truthy rid"
    and "lookup (body rq) ''replies'' = JArr []"
  shows "validateRequestReplies getRequestDetailed rq = Inr Next
         \<and> post_route getRequestDetailed addRequestReplies rq = post_replies addRequestReplies rq"
  using validate_existing[of getRequestDetailed rq request rid] assms(1-3) assms(4) by (simp add: post_route_def)

text \<open>
  Claim C10 at the empty batch, with a store that hands the batch back.
\<close>

theorem validate_accepts_empty_batch_witness:
  "validateRequestReplies (\<lambda>i. Inr (JObj [(''id'', JNum 1)]))
     \<lparr>params = [(''id'', JStr ''1'')], body = [(''replies'', JArr [])],
      profile = [(''id'', JStr ''A'')]\<rparr>
   = Inr Next
   \<and> post_route (\<lambda>i. Inr (JObj [(''id'', JNum 1)])) (\<lambda>i p r. Inr r)
     \<lparr>params = [(''id'', JStr ''1'')], body = [(''replies'', JArr [])],
      profile = [(''id'', JStr ''A'')]\<rparr>
   = Inr (Respond 200 (JArr []))"
  using validate_accepts_empty_batch [of "\<lambda>i. Inr (JObj [(''id'', JNum 1)])"
     "\<lparr>params = [(''id'', JStr ''1'')], body = [(''replies'', JArr [])],
      profile = [(''id'', JStr ''A'')]\<rparr>"
     "JObj [(''id'', JNum 1)]" "JNum 1" "\<lambda>i p r. Inr r"]
  by (simp add: lookup_def post_replies_def)

section \<open>Properties of the write route\<close>

text \<open>
  Claim C8. When the validator has accepted the batch and \<open>addRequestReplies\<close> yields
  \<open>requestInfo\<close>, the route answers 200 with \<open>requestInfo\<close> itself if it is truthy, and
  with status 500 and the fixed payload \<open>{message: ...}\<close> of the internal server error if
  it is falsy.
\<close>

theorem write_passes_store_result_through:
  assumes "validateRequestReplies getRequestDetailed rq = Inr Next"
    and "addRequestReplies (lookup (params rq) ''id'') (lookup (profile rq) ''id'')
           (lookup (body rq) ''replies'') = Inr requestInfo"
  shows "post_route getRequestDetailed addRequestReplies rq =
           Inr (if truthy requestInfo then Respond 200 requestInfo
                else Respond 500
                       (JObj [(''message'',
                               JStr (''We are so'' @ ''rry, Internal server error.''))]))"
  using assms by (simp add: post_route_def post_replies_def internal_server_error_def)

text \<open>
  Claim C8 at an accepted batch, once with a store that yields an object and once with a
  store that yields \<open>null\<close>.
\<close>

theorem write_passes_store_result_through_witness:
  "post_route (\<lambda>i. Inr (JObj [(''id'', JNum 1)]))
     (\<lambda>i p r. Inr (JObj [(''request'', i), (''by'', p), (''replies'', r)]))
     \<lparr>params = [(''id'', JStr ''1'')],
      body = [(''replies'', JArr [JObj [(''question_id'', JNum 1), (''content'', JStr ''a'')]])],
      profile = [(''id'', JStr ''A'')]\<rparr>
   = Inr (Respond 200
       (JObj [(''request'', JStr ''1''), (''by'', JStr ''A''),
              (''replies'', JArr [JObj [(''question_id'', JNum 1), (''content'', JStr ''a'')]])]))
   \<and> post_route (\<lambda>i. Inr (JObj [(''id'', JNum 1)])) (\<lambda>i p r. Inr JNull)
     \<lparr>params = [(''id'', JStr ''1'')],
      body = [(''replies'', JArr [JObj [(''question_id'', JNum 1), (''content'', JStr ''a'')]])],
      profile = [(''id'', JStr ''A'')]\<rparr>
   = Inr (Respond 500
            (JObj [(''message'', JStr (''We are so'' @ ''rry, Internal server error.''))]))"
proof -
  let ?rq = "\<lparr>params = [(''id'', JStr ''1'')],
      body = [(''replies'', JArr [JObj [(''question_id'', JNum 1), (''content'', JStr ''a'')]])],
      profile = [(''id'', JStr ''A'')]\<rparr>"
  let ?gd = "\<lambda>i::jsval. (Inr (JObj [(''id'', JNum 1)]) :: error + jsval)"
  have v: "validateRequestReplies ?gd ?rq = Inr Next"
    by (simp add: validateRequestReplies_def lookup_def)
  show ?thesis
    using write_passes_store_result_through [of ?gd ?rq
        "\<lambda>i p r. Inr (JObj [(''request'', i), (''by'', p), (''replies'', r)])", OF v]
      write_passes_store_result_through [of ?gd ?rq "\<lambda>i p r. Inr JNull", OF v]
    by (simp add: lookup_def)
qed

section \<open>Properties of the aggregator\<close>

lemma map_st_reply_cb:
  "map_st reply_cb st rs = (foldl (\<lambda>s r. fst (reply_cb s r)) st rs, map reply_view rs)"
  by (induction rs arbitrary: st) (auto simp: reply_cb_def Let_def)

lemma foldl_reply_cb:
  "foldl (\<lambda>s r. fst (reply_cb s r)) (u, a) rs =
     (foldl (\<lambda>u v. if \<not> truthy u then v else u) u (map (\<lambda>r. lookup r ''name'') rs),
      foldl (\<lambda>u v. if \<not> truthy u then v else u) a (map (\<lambda>r. lookup r ''avatarUrl'') rs))"
  by (induction rs arbitrary: u a) (auto simp: reply_cb_def Let_def)

lemma keep_truthy: "truthy u \<Longrightarrow> foldl (\<lambda>u v. if \<not> truthy u then v else u) u vs = u"
  by (induction vs) auto

lemma first_truthy_or_last:
  "\<not> truthy u \<Longrightarrow> vs \<noteq> [] \<Longrightarrow>
   foldl (\<lambda>u v. if \<not> truthy u then v else u) u vs =
     (case find truthy vs of Some v \<Rightarrow> v | None \<Rightarrow> last vs)"
proof (induction vs arbitrary: u)
  case Nil
  then show ?case by simp
next
  case (Cons v vs)
  note IH = Cons.IH and prems = Cons.prems
  show ?case
  proof (cases "truthy v")
    case True
    then show ?thesis using prems by (simp add: keep_truthy)
  next
    case False
    show ?thesis
    proof (cases "vs = []")
      case True
      then show ?thesis using False prems by simp
    next
      case nonempty: False
      then show ?thesis using False IH[of v] prems by (simp split: option.splits)
    qed
  qed
qed


lemma filteredReplies_map: "filteredReplies replies who = map (member_group replies) who"
proof -
  have "foldl (reducer replies) acc who = acc @ map (member_group replies) who" for acc
    by (induction who arbitrary: acc) (simp_all add: reducer_def)
  then show ?thesis by (simp add: filteredReplies_def)
qed

lemma member_group_eq:
  "member_group replies m =
     JObj [(''profile_id'', JStr m),
           (''name'', foldl (\<lambda>u v. if \<not> truthy u then v else u) JUndefined
               (map (\<lambda>r. lookup r ''name'') (matching replies m))),
           (''avatarUrl'', foldl (\<lambda>u v. if \<not> truthy u then v else u) JUndefined
               (map (\<lambda>r. lookup r ''avatarUrl'') (matching replies m))),
           (''replies'', JArr (map reply_view (matching replies m)))]"
  by (simp add: member_group_def map_st_reply_cb foldl_reply_cb)

lemma member_group_fields:
  "field (member_group replies m) ''profile_id'' = Inr (JStr m)"
  "field (member_group replies m) ''replies'' = Inr (JArr (map reply_view (matching replies m)))"
  "fields_of (member_group replies m) = [''profile_id'', ''name'', ''avatarUrl'', ''replies'']"
  by (simp_all add: member_group_eq lookup_def)

lemma member_group_identity:
  "field (member_group replies m) ''name'' =
     Inr (foldl (\<lambda>u v. if \<not> truthy u then v else u) JUndefined
            (map (\<lambda>r. lookup r ''name'') (matching replies m)))"
  "field (member_group replies m) ''avatarUrl'' =
     Inr (foldl (\<lambda>u v. if \<not> truthy u then v else u) JUndefined
            (map (\<lambda>r. lookup r ''avatarUrl'') (matching replies m)))"
  by (simp_all add: member_group_eq lookup_def)

lemma member_group_empty:
  "matching replies m = [] \<Longrightarrow>
   member_group replies m =
     JObj [(''profile_id'', JStr m), (''name'', JUndefined), (''avatarUrl'', JUndefined),
           (''replies'', JArr [])]"
  by (simp add: member_group_eq)

lemma matching_drop_foreign:
  "m \<in> set who \<Longrightarrow>
   matching (filter (\<lambda>r. \<exists>m\<in>set who. lookup r ''profile_id'' = JStr m) replies) m
     = matching replies m"
  by (induction replies) (auto simp: matching_def)

lemma reply_view_fields:
  "fields_of (reply_view r) =
     [''id'', ''posted_at'', ''iteration_id'', ''question_id'', ''question'', ''content'']"
  by (simp add: reply_view_def)

text \<open>
  Claim C2. For all replies and all lists \<open>whoHasReplied\<close> (the empty one too), the
  aggregator emits as many groups as \<open>whoHasReplied\<close> has ids, and the group at position
  \<open>i\<close> is the one of the id at position \<open>i\<close>: its \<open>profile_id\<close> is that id, and its
  \<open>replies\<close> are the input replies whose \<open>profile_id\<close> is that id, in input order, each
  reduced to \<open>id\<close>, \<open>posted_at\<close>, \<open>iteration_id\<close>, \<open>question_id\<close>, \<open>question\<close> and
  \<open>content\<close>. A member without matching replies gets a group with \<open>name\<close> and
  \<open>avatarUrl\<close> \<open>undefined\<close> and no replies. No replies and no members give no groups.
\<close>

theorem one_group_per_member_in_order:
  "length (filteredReplies replies who) = length who
   \<and> (\<forall>i<length who.
         field (filteredReplies replies who ! i) ''profile_id'' = Inr (JStr (who ! i))
       \<and> field (filteredReplies replies who ! i) ''replies'' =
            Inr (JArr (map (\<lambda>r. JObj [(''id'', lookup r ''id''),
                                      (''posted_at'', lookup r ''posted_at''),
                                      (''iteration_id'', lookup r ''iteration_id''),
                                      (''question_id'', lookup r ''question_id''),
                                      (''question'', lookup r ''question''),
                                      (''content'', lookup r ''content'')])
                        (filter (\<lambda>r. lookup r ''profile_id'' = JStr (who ! i)) replies)))
       \<and> (filter (\<lambda>r. lookup r ''profile_id'' = JStr (who ! i)) replies = [] \<longrightarrow>
            filteredReplies replies who ! i =
              JObj [(''profile_id'', JStr (who ! i)), (''name'', JUndefined),
                    (''avatarUrl'', JUndefined), (''replies'', JArr [])]))
   \<and> filteredReplies [] [] = []"
proof -
  have view: "reply_view = (\<lambda>r. JObj [(''id'', lookup r ''id''),
                                      (''posted_at'', lookup r ''posted_at''),
                                      (''iteration_id'', lookup r ''iteration_id''),
                                      (''question_id'', lookup r ''question_id''),
                                      (''question'', lookup r ''question''),
                                      (''content'', lookup r ''content'')])"
    by (rule ext) (simp add: reply_view_def)
  have len: "length (filteredReplies replies who) = length who"
    by (simp add: filteredReplies_map)
  have nil: "filteredReplies [] [] = []"
    by (simp add: filteredReplies_map)
  have each: "field (filteredReplies replies who ! i) ''profile_id'' = Inr (JStr (who ! i))
       \<and> field (filteredReplies replies who ! i) ''replies'' =
            Inr (JArr (map reply_view
                        (filter (\<lambda>r. lookup r ''profile_id'' = JStr (who ! i)) replies)))
       \<and> (filter (\<lambda>r. lookup r ''profile_id'' = JStr (who ! i)) replies = [] \<longrightarrow>
            filteredReplies replies who ! i =
              JObj [(''profile_id'', JStr (who ! i)), (''name'', JUndefined),
                    (''avatarUrl'', JUndefined), (''replies'', JArr [])])"
    if "i < length who" for i
    using that member_group_empty[of replies "who ! i"]
    by (simp add: filteredReplies_map member_group_fields matching_def)
  show ?thesis
    using len nil each unfolding view by blast
qed

text \<open>
  Claim C2 at the replies 1 and 3 of \<open>A\<close> and 2 of \<open>B\<close> and the members \<open>B\<close>, \<open>C\<close>, \<open>A\<close>:
  three groups, the first one of \<open>B\<close>, the one of \<open>C\<close> empty, the one of \<open>A\<close> with the
  replies 1 and 3 in that order.
\<close>

theorem one_group_per_member_in_order_witness:
  "length (filteredReplies
            [[(''id'', JNum 1), (''profile_id'', JStr ''A''), (''name'', JStr ''Alice''),
              (''question_id'', JNum 1), (''content'', JStr ''x'')],
             [(''id'', JNum 2), (''profile_id'', JStr ''B''), (''name'', JStr ''Bob''),
              (''question_id'', JNum 1), (''content'', JStr ''y'')],
             [(''id'', JNum 3), (''profile_id'', JStr ''A''), (''name'', JStr ''Alice''),
              (''question_id'', JNum 2), (''content'', JStr ''z'')]]
            [''B'', ''C'', ''A'']) = 3
   \<and> field (filteredReplies
            [[(''id'', JNum 1), (''profile_id'', JStr ''A''), (''name'', JStr ''Alice''),
              (''question_id'', JNum 1), (''content'', JStr ''x'')],
             [(''id'', JNum 2), (''profile_id'', JStr ''B''), (''name'', JStr ''Bob''),
              (''question_id'', JNum 1), (''content'', JStr ''y'')],
             [(''id'', JNum 3), (''profile_id'', JStr ''A''), (''name'', JStr ''Alice''),
              (''question_id'', JNum 2), (''content'', JStr ''z'')]]
            [''B'', ''C'', ''A''] ! 0) ''profile_id'' = Inr (JStr ''B'')
   \<and> filteredReplies
            [[(''id'', JNum 1), (''profile_id'', JStr ''A''), (''name'', JStr ''Alice''),
              (''question_id'', JNum 1), (''content'', JStr ''x'')],
             [(''id'', JNum 2), (''profile_id'', JStr ''B''), (''name'', JStr ''Bob''),
              (''question_id'', JNum 1), (''content'', JStr ''y'')],
             [(''id'', JNum 3), (''profile_id'', JStr ''A''), (''name'', JStr ''Alice''),
              (''question_id'', JNum 2), (''content'', JStr ''z'')]]
            [''B'', ''C'', ''A''] ! 1 =
        JObj [(''profile_id'', JStr ''C''), (''name'', JUndefined),
              (''avatarUrl'', JUndefined), (''replies'', JArr [])]
   \<and> field (filteredReplies
            [[(''id'', JNum 1), (''profile_id'', JStr ''A''), (''name'', JStr ''Alice''),
              (''question_id'', JNum 1), (''content'', JStr ''x'')],
             [(''id'', JNum 2), (''profile_id'', JStr ''B''), (''name'', JStr ''Bob''),
              (''question_id'', JNum 1), (''content'', JStr ''y'')],
             [(''id'', JNum 3), (''profile_id'', JStr ''A''), (''name'', JStr ''Alice''),
              (''question_id'', JNum 2), (''content'', JStr ''z'')]]
            [''B'', ''C'', ''A''] ! 2) ''replies'' =
        Inr (JArr [JObj [(''id'', JNum 1), (''posted_at'', JUndefined),
                         (''iteration_id'', JUndefined), (''question_id'', JNum 1),
                         (''question'', JUndefined), (''content'', JStr ''x'')],
                   JObj [(''id'', JNum 3), (''posted_at'', JUndefined),
                         (''iteration_id'', JUndefined), (''question_id'', JNum 2),
                         (''question'', JUndefined), (''content'', JStr ''z'')]])"
proof -
  let ?R = "[[(''id'', JNum 1), (''profile_id'', JStr ''A''), (''name'', JStr ''Alice''),
              (''question_id'', JNum 1), (''content'', JStr ''x'')],
             [(''id'', JNum 2), (''profile_id'', JStr ''B''), (''name'', JStr ''Bob''),
              (''question_id'', JNum 1), (''content'', JStr ''y'')],
             [(''id'', JNum 3), (''profile_id'', JStr ''A''), (''name'', JStr ''Alice''),
              (''question_id'', JNum 2), (''content'', JStr ''z'')]]"
  let ?W = "[''B'', ''C'', ''A'']"
  note inst = one_group_per_member_in_order [of ?R ?W]
  from inst have len: "length (filteredReplies ?R ?W) = length ?W" by (rule conjunct1)
  from inst have all: "\<forall>i<length ?W.
         field (filteredReplies ?R ?W ! i) ''profile_id'' = Inr (JStr (?W ! i))
       \<and> field (filteredReplies ?R ?W ! i) ''replies'' =
            Inr (JArr (map (\<lambda>r. JObj [(''id'', lookup r ''id''),
                                      (''posted_at'', lookup r ''posted_at''),
                                      (''iteration_id'', lookup r ''iteration_id''),
                                      (''question_id'', lookup r ''question_id''),
                                      (''question'', lookup r ''question''),
                                      (''content'', lookup r ''content'')])
                        (filter (\<lambda>r. lookup r ''profile_id'' = JStr (?W ! i)) ?R)))
       \<and> (filter (\<lambda>r. lookup r ''profile_id'' = JStr (?W ! i)) ?R = [] \<longrightarrow>
            filteredReplies ?R ?W ! i =
              JObj [(''profile_id'', JStr (?W ! i)), (''name'', JUndefined),
                    (''avatarUrl'', JUndefined), (''replies'', JArr [])])"
    by blast
  have i0: "(0::nat) < length ?W" and i1: "(1::nat) < length ?W" and i2: "(2::nat) < length ?W"
    by simp_all
  show ?thesis
    using len all [rule_format, OF i0] all [rule_format, OF i1] all [rule_format, OF i2]
    by (simp add: lookup_def)
qed

text \<open>
  Claim C1, amended. For a member of \<open>whoHasReplied\<close> with at least one matching reply,
  the group's \<open>name\<close> is the name of the first matching reply whose name is truthy and,
  when no matching reply has a truthy name, the name of the last matching reply; the
  same holds, independently, for \<open>avatarUrl\<close>. In particular, when the first matching
  reply carries a truthy name (avatarUrl), the group carries that one and the later
  ones are dropped.
\<close>

theorem group_identity_first_truthy:
  assumes "i < length who" and "matching replies (who ! i) \<noteq> []"
  shows "field (filteredReplies replies who ! i) ''name'' =
           Inr (case find truthy (map (\<lambda>r. lookup r ''name'') (matching replies (who ! i))) of
                  Some v \<Rightarrow> v
                | None \<Rightarrow> lookup (last (matching replies (who ! i))) ''name'')
       \<and> field (filteredReplies replies who ! i) ''avatarUrl'' =
           Inr (case find truthy (map (\<lambda>r. lookup r ''avatarUrl'') (matching replies (who ! i))) of
                  Some v \<Rightarrow> v
                | None \<Rightarrow> lookup (last (matching replies (who ! i))) ''avatarUrl'')
       \<and> (truthy (lookup (hd (matching replies (who ! i))) ''name'') \<longrightarrow>
            field (filteredReplies replies who ! i) ''name'' =
              Inr (lookup (hd (matching replies (who ! i))) ''name''))
       \<and> (truthy (lookup (hd (matching replies (who ! i))) ''avatarUrl'') \<longrightarrow>
            field (filteredReplies replies who ! i) ''avatarUrl'' =
              Inr (lookup (hd (matching replies (who ! i))) ''avatarUrl''))"
proof -
  let ?ms = "matching replies (who ! i)"
  have g: "filteredReplies replies who ! i = member_group replies (who ! i)"
    using assms(1) by (simp add: filteredReplies_map)
  have pick: "foldl (\<lambda>u v. if \<not> truthy u then v else u) JUndefined (map (\<lambda>r. lookup r k) ?ms) =
      (case find truthy (map (\<lambda>r. lookup r k) ?ms) of Some v \<Rightarrow> v
       | None \<Rightarrow> lookup (last ?ms) k)" for k
    using assms(2) first_truthy_or_last[of JUndefined "map (\<lambda>r. lookup r k) ?ms"]
    by (simp add: last_map split: option.splits)
  have first: "truthy (lookup (hd ?ms) k) \<Longrightarrow>
      find truthy (map (\<lambda>r. lookup r k) ?ms) = Some (lookup (hd ?ms) k)" for k
    using assms(2) by (cases ?ms) simp_all
  show ?thesis
    using first[of "''name''"] first[of "''avatarUrl''"]
    by (simp add: g member_group_identity pick)
qed

text \<open>
  Claim C1, amended, at member \<open>A\<close> with the names \<open>null\<close>, \<open>Alice\<close>, \<open>Al\<close> and the avatars
  \<open>null\<close>, empty, empty.
\<close>

theorem group_identity_first_truthy_witness:
  "field (filteredReplies
            [[(''id'', JNum 1), (''profile_id'', JStr ''A''), (''name'', JNull),
              (''avatarUrl'', JNull)],
             [(''id'', JNum 2), (''profile_id'', JStr ''B''), (''name'', JStr ''Bob''),
              (''avatarUrl'', JStr ''b.png'')],
             [(''id'', JNum 3), (''profile_id'', JStr ''A''), (''name'', JStr ''Alice''),
              (''avatarUrl'', JStr '''')],
             [(''id'', JNum 4), (''profile_id'', JStr ''A''), (''name'', JStr ''Al''),
              (''avatarUrl'', JStr '''')]]
            [''B'', ''A''] ! 1) ''name'' = Inr (JStr ''Alice'')
   \<and> field (filteredReplies
            [[(''id'', JNum 1), (''profile_id'', JStr ''A''), (''name'', JNull),
              (''avatarUrl'', JNull)],
             [(''id'', JNum 2), (''profile_id'', JStr ''B''), (''name'', JStr ''Bob''),
              (''avatarUrl'', JStr ''b.png'')],
             [(''id'', JNum 3), (''profile_id'', JStr ''A''), (''name'', JStr ''Alice''),
              (''avatarUrl'', JStr '''')],
             [(''id'', JNum 4), (''profile_id'', JStr ''A''), (''name'', JStr ''Al''),
              (''avatarUrl'', JStr '''')]]
            [''B'', ''A''] ! 1) ''avatarUrl'' = Inr (JStr '''')"
  using group_identity_first_truthy [of 1 "[''B'', ''A'']"
      "[[(''id'', JNum 1), (''profile_id'', JStr ''A''), (''name'', JNull),
              (''avatarUrl'', JNull)],
             [(''id'', JNum 2), (''profile_id'', JStr ''B''), (''name'', JStr ''Bob''),
              (''avatarUrl'', JStr ''b.png'')],
             [(''id'', JNum 3), (''profile_id'', JStr ''A''), (''name'', JStr ''Alice''),
              (''avatarUrl'', JStr '''')],
             [(''id'', JNum 4), (''profile_id'', JStr ''A''), (''name'', JStr ''Al''),
              (''avatarUrl'', JStr '''')]]"]
  by (simp add: matching_def lookup_def)

text \<open>
  Claim C1 as written (the group always carries the first matching reply's name) fails
  when that name is falsy: member \<open>A\<close> has two replies, the first with the empty name,
  the second named \<open>Bob\<close>, and the group is named \<open>Bob\<close>.
\<close>

theorem first_reply_identity_counterexample:
  "field (filteredReplies
            [[(''id'', JNum 1), (''profile_id'', JStr ''A''), (''name'', JStr ''''),
              (''avatarUrl'', JNull)],
             [(''id'', JNum 2), (''profile_id'', JStr ''A''), (''name'', JStr ''Bob''),
              (''avatarUrl'', JStr ''b.png'')]]
            [''A''] ! 0) ''name'' = Inr (JStr ''Bob'')
   \<and> lookup [(''id'', JNum 1), (''profile_id'', JStr ''A''), (''name'', JStr ''''),
              (''avatarUrl'', JNull)] ''name'' = JStr ''''"
  by (simp add: filteredReplies_def reducer_def member_group_def matching_def reply_cb_def
      lookup_def)

text \<open>
  Claim C6. Every emitted group has exactly the properties \<open>profile_id\<close>, \<open>name\<close>,
  \<open>avatarUrl\<close> and \<open>replies\<close>; its \<open>replies\<close> is an array, and every entry of it has
  exactly the properties \<open>id\<close>, \<open>posted_at\<close>, \<open>iteration_id\<close>, \<open>question_id\<close>,
  \<open>question\<close> and \<open>content\<close>, so none of \<open>profile_id\<close>, \<open>name\<close>, \<open>avatarUrl\<close>.
\<close>

theorem emitted_replies_carry_no_identity:
  assumes "g \<in> set (filteredReplies replies who)"
  shows "fields_of g = [''profile_id'', ''name'', ''avatarUrl'', ''replies'']
       \<and> (\<exists>rs. field g ''replies'' = Inr (JArr rs)
            \<and> (\<forall>e\<in>set rs.
                  fields_of e = [''id'', ''posted_at'', ''iteration_id'', ''question_id'',
                                 ''question'', ''content'']
                  \<and> ''profile_id'' \<notin> set (fields_of e)
                  \<and> ''name'' \<notin> set (fields_of e)
                  \<and> ''avatarUrl'' \<notin> set (fields_of e)))"
proof -
  from assms obtain m where g: "g = member_group replies m"
    by (auto simp: filteredReplies_map)
  have "\<forall>e\<in>set (map reply_view (matching replies m)).
          fields_of e = [''id'', ''posted_at'', ''iteration_id'', ''question_id'',
                         ''question'', ''content'']
          \<and> ''profile_id'' \<notin> set (fields_of e)
          \<and> ''name'' \<notin> set (fields_of e)
          \<and> ''avatarUrl'' \<notin> set (fields_of e)"
    by (auto simp: reply_view_fields)
  then show ?thesis
    unfolding g using member_group_fields[of replies m] by blast
qed

text \<open>
  Claim C6 at one reply of member \<open>A\<close>.
\<close>

theorem emitted_replies_carry_no_identity_witness:
  "filteredReplies
     [[(''id'', JNum 1), (''profile_id'', JStr ''A''), (''name'', JStr ''Alice''),
       (''question_id'', JNum 1), (''content'', JStr ''x'')]]
     [''A''] =
   [JObj [(''profile_id'', JStr ''A''), (''name'', JStr ''Alice''), (''avatarUrl'', JUndefined),
          (''replies'',
           JArr [JObj [(''id'', JNum 1), (''posted_at'', JUndefined),
                       (''iteration_id'', JUndefined), (''question_id'', JNum 1),
                       (''question'', JUndefined), (''content'', JStr ''x'')]])]]
   \<and> ''profile_id'' \<notin> set (fields_of
           (JObj [(''id'', JNum 1), (''posted_at'', JUndefined),
                       (''iteration_id'', JUndefined), (''question_id'', JNum 1),
                       (''question'', JUndefined), (''content'', JStr ''x'')]))"
proof -
  let ?R = "[[(''id'', JNum 1), (''profile_id'', JStr ''A''), (''name'', JStr ''Alice''),
       (''question_id'', JNum 1), (''content'', JStr ''x'')]]"
  let ?E = "JObj [(''id'', JNum 1), (''posted_at'', JUndefined),
                       (''iteration_id'', JUndefined), (''question_id'', JNum 1),
                       (''question'', JUndefined), (''content'', JStr ''x'')]"
  let ?G = "JObj [(''profile_id'', JStr ''A''), (''name'', JStr ''Alice''), (''avatarUrl'', JUndefined),
          (''replies'', JArr [?E])]"
  have F: "filteredReplies ?R [''A''] = [?G]"
    by (simp add: filteredReplies_def reducer_def member_group_def matching_def reply_cb_def
        reply_view_def lookup_def)
  then have g: "?G \<in> set (filteredReplies ?R [''A''])" by simp
  from emitted_replies_carry_no_identity [OF g] obtain rs where rs: "field ?G ''replies'' = Inr (JArr rs)"
    and all: "\<forall>e\<in>set rs. ''profile_id'' \<notin> set (fields_of e)"
    by blast
  from rs have "rs = [?E]" by (simp add: lookup_def)
  with all have "''profile_id'' \<notin> set (fields_of ?E)" by simp
  with F show ?thesis by (rule conjI)
qed

text \<open>
  Claim C9. Replies whose \<open>profile_id\<close> is no id of \<open>whoHasReplied\<close> leave no trace:
  removing them from the input does not change the output. Every emitted group belongs
  to an id of \<open>whoHasReplied\<close>, and every reply in it is the stripped form of an input
  reply with that \<open>profile_id\<close>.
\<close>

theorem foreign_replies_absent:
  assumes "g \<in> set (filteredReplies replies who)"
  shows "filteredReplies
           (filter (\<lambda>r. \<exists>m\<in>set who. lookup r ''profile_id'' = JStr m) replies) who
           = filteredReplies replies who
       \<and> (\<exists>m\<in>set who. field g ''profile_id'' = Inr (JStr m)
            \<and> (\<exists>rs. field g ''replies'' = Inr (JArr rs)
                 \<and> (\<forall>e\<in>set rs. \<exists>r\<in>set replies.
                       lookup r ''profile_id'' = JStr m \<and> e = reply_view r)))"
proof -
  have a: "filteredReplies
           (filter (\<lambda>r. \<exists>m\<in>set who. lookup r ''profile_id'' = JStr m) replies) who
           = filteredReplies replies who"
    by (simp add: filteredReplies_map member_group_eq matching_drop_foreign)
  from assms obtain m where m: "m \<in> set who" and g: "g = member_group replies m"
    by (auto simp: filteredReplies_map)
  have "\<forall>e\<in>set (map reply_view (matching replies m)). \<exists>r\<in>set replies.
           lookup r ''profile_id'' = JStr m \<and> e = reply_view r"
    by (auto simp: matching_def)
  then have b: "\<exists>m\<in>set who. field g ''profile_id'' = Inr (JStr m)
            \<and> (\<exists>rs. field g ''replies'' = Inr (JArr rs)
                 \<and> (\<forall>e\<in>set rs. \<exists>r\<in>set replies.
                       lookup r ''profile_id'' = JStr m \<and> e = reply_view r))"
    unfolding g using m member_group_fields(1,2)[of replies m] by blast
  show ?thesis using a b by (rule conjI)
qed

text \<open>
  Claim C9 at a reply of \<open>X\<close>, who is not among the members.
\<close>

theorem foreign_replies_absent_witness:
  "filteredReplies
     [[(''id'', JNum 1), (''profile_id'', JStr ''A''), (''name'', JStr ''Alice'')]]
     [''A''] =
   filteredReplies
     [[(''id'', JNum 1), (''profile_id'', JStr ''A''), (''name'', JStr ''Alice'')],
      [(''id'', JNum 2), (''profile_id'', JStr ''X''), (''name'', JStr ''Xavier'')]]
     [''A'']"
proof -
  let ?R = "[[(''id'', JNum 1), (''profile_id'', JStr ''A''), (''name'', JStr ''Alice'')],
      [(''id'', JNum 2), (''profile_id'', JStr ''X''), (''name'', JStr ''Xavier'')]]"
  have g: "filteredReplies ?R [''A''] ! 0 \<in> set (filteredReplies ?R [''A''])"
    by (simp add: filteredReplies_map)
  show ?thesis
    using foreign_replies_absent [OF g] by (simp add: lookup_def)
qed

end
